theory Spec2Isabelle
  imports Main "HOL-Library.Sublist"
begin

section \<open>Strings\<close>

text \<open>
  A Python \<^verbatim>\<open>str\<close> is modelled as a \<^typ>\<open>string\<close>, a list of characters with code
  points 0 to 255. On that range \<^verbatim>\<open>str.lower\<close> maps A-Z and the Latin-1 capitals
  (192 to 222 without the multiplication sign 215) 32 code points up and leaves every
  other character alone; \<^verbatim>\<open>\d\<close> matches the ten digits 0-9 only.
\<close>

definition lower_char :: "char \<Rightarrow> char" where
  "lower_char c =
     (let n = (of_char c :: nat)
      in if (65 \<le> n \<and> n \<le> 90) \<or> (192 \<le> n \<and> n \<le> 222 \<and> n \<noteq> 215)
         then char_of (n + 32) else c)"

definition lower :: "string \<Rightarrow> string" where
  "lower s = map lower_char s"

text \<open>\<^verbatim>\<open>needle in hay\<close> on two strings: the needle occurs as a contiguous run.\<close>

fun str_in :: "string \<Rightarrow> string \<Rightarrow> bool" where
  "str_in needle [] = (needle = [])"
| "str_in needle (c # cs) = (prefix needle (c # cs) \<or> str_in needle cs)"

definition is_digit :: "char \<Rightarrow> bool" where
  "is_digit c = (let n = (of_char c :: nat) in 48 \<le> n \<and> n \<le> 57)"

definition digit_value :: "char \<Rightarrow> int" where
  "digit_value c = int (of_char c) - 48"

section \<open>Exceptions\<close>

text \<open>
  The subclasses of \<^verbatim>\<open>Exception\<close> that the code can meet. \<open>OtherException\<close> stands
  for every further subclass a library call may raise (a \<^verbatim>\<open>requests\<close> error, an
  \<^verbatim>\<open>UnpicklingError\<close>, a \<^verbatim>\<open>RecursionError\<close>, a redis error), tagged with its name.
  \<^verbatim>\<open>JSONDecodeError\<close> is a subclass of \<^verbatim>\<open>ValueError\<close>.
\<close>

datatype exn =
    AttributeError
  | TypeError
  | ValueError
  | KeyError
  | JSONDecodeError
  | OtherException string

section \<open>\<^verbatim>\<open>int(str)\<close>\<close>

text \<open>
  \<^verbatim>\<open>int(s)\<close> on a string, base ten: surrounding whitespace is stripped, one sign is
  allowed, then come digits, with single underscores allowed between two digits.
  Anything else raises \<^verbatim>\<open>ValueError\<close>. (The interpreter's configurable limit on the
  number of digits is not modelled.)
\<close>

definition is_space :: "char \<Rightarrow> bool" where
  "is_space c =
     (let n = (of_char c :: nat)
      in (9 \<le> n \<and> n \<le> 13) \<or> (28 \<le> n \<and> n \<le> 32) \<or> n = 133 \<or> n = 160)"

definition strip :: "string \<Rightarrow> string" where
  "strip s = rev (dropWhile is_space (rev (dropWhile is_space s)))"

fun digit_groups :: "string \<Rightarrow> string option" where
  "digit_groups [] = None"
| "digit_groups [c] = (if is_digit c then Some [c] else None)"
| "digit_groups (c # d # cs) =
     (if \<not> is_digit c then None
      else if d = CHR ''_'' then map_option ((#) c) (digit_groups cs)
      else map_option ((#) c) (digit_groups (d # cs)))"

definition digits_to_int :: "string \<Rightarrow> int" where
  "digits_to_int ds = foldl (\<lambda>acc c. 10 * acc + digit_value c) 0 ds"

definition py_int :: "string \<Rightarrow> exn + int" where
  "py_int s =
     (let t = strip s;
          (neg, body) = (case t of
                           c # cs \<Rightarrow> if c = CHR ''-'' then (True, cs)
                                     else if c = CHR ''+'' then (False, cs)
                                     else (False, t)
                         | [] \<Rightarrow> (False, t))
      in case digit_groups body of
           None \<Rightarrow> Inl ValueError
         | Some ds \<Rightarrow> Inr (if neg then - digits_to_int ds else digits_to_int ds))"

section \<open>The URL validator\<close>

definition PLACEHOLDER_IMAGES :: "string list" where
  "PLACEHOLDER_IMAGES =
     [''grey-pixel.gif'', ''transparent-pixel.gif'', ''loading-img'', ''no-img'',
      ''no-image'', ''placeholder'', ''spinner'', ''loading'', ''blank'']"

definition image_extensions :: "string list" where
  "image_extensions = [''.jpg'', ''.jpeg'', ''.png'', ''.gif'', ''.webp'']"

text \<open>
  \<^verbatim>\<open>re.search(r'_SX(\d+)_', url)\<close> and its \<^verbatim>\<open>_SY\<close> twin. \<open>match_dim tag s\<close> matches
  the pattern at the start of \<open>s\<close>: the tag, the longest run of digits (at least one)
  and an underscore; it returns group 1. Backtracking into the run cannot help,
  since a shorter run is followed by a digit. \<open>re_search_dim\<close> tries the start
  positions from left to right.
\<close>

definition match_dim :: "string \<Rightarrow> string \<Rightarrow> string option" where
  "match_dim tag s =
     (if prefix tag s then
        (let rest = drop (length tag) s;
             ds = takeWhile is_digit rest
         in case dropWhile is_digit rest of
              c # _ \<Rightarrow> if ds \<noteq> [] \<and> c = CHR ''_'' then Some ds else None
            | [] \<Rightarrow> None)
      else None)"

fun re_search_dim :: "string \<Rightarrow> string \<Rightarrow> string option" where
  "re_search_dim tag [] = None"
| "re_search_dim tag (c # cs) =
     (case match_dim tag (c # cs) of
        Some ds \<Rightarrow> Some ds
      | None \<Rightarrow> re_search_dim tag cs)"

text \<open>
  The block guarded by \<^verbatim>\<open>'SX' in url and 'SY' in url\<close>: \<open>True\<close> when it reaches its
  \<^verbatim>\<open>return False\<close>. A \<^verbatim>\<open>ValueError\<close> of \<^verbatim>\<open>int\<close> is caught and passed over.
\<close>

definition small_dimensions :: "string \<Rightarrow> bool" where
  "small_dimensions url =
     (if str_in ''SX'' url \<and> str_in ''SY'' url then
        (case (re_search_dim ''_SX'' url, re_search_dim ''_SY'' url) of
           (Some sx, Some sy) \<Rightarrow>
             (case py_int sx of
                Inl e \<Rightarrow> False
              | Inr width \<Rightarrow>
                  (case py_int sy of
                     Inl e \<Rightarrow> False
                   | Inr height \<Rightarrow> width < 100 \<or> height < 100))
         | _ \<Rightarrow> False)
      else False)"

definition is_valid_image_url :: "string \<Rightarrow> bool" where
  "is_valid_image_url url =
     (if url = [] then False
      else if list_ex (\<lambda>placeholder. str_in placeholder (lower url)) PLACEHOLDER_IMAGES
      then False
      else
        (let has_extension = list_ex (\<lambda>ext. str_in ext (lower url)) image_extensions;
             is_amazon_image =
               (str_in ''amazon'' url \<or> str_in ''images-na.ssl-images-amazon.com'' url)
         in if small_dimensions url then False
            else is_amazon_image \<and> (has_extension \<or> str_in ''images-amazon'' url)))"

section \<open>JSON values\<close>

text \<open>
  The Python objects that \<^verbatim>\<open>json.loads\<close> returns. An object keeps its keys in the
  order of the text, as a Python \<^verbatim>\<open>dict\<close> does. A number is kept as an integer: the
  code only tests a number for truth and for not being a string, so a float stands
  for 0 when it is zero and for 1 otherwise.
\<close>

datatype json =
    JNull
  | JBool bool
  | JNum int
  | JStr string
  | JArr "json list"
  | JObj "(string \<times> json) list"

fun truthy :: "json \<Rightarrow> bool" where
  "truthy JNull = False"
| "truthy (JBool b) = b"
| "truthy (JNum n) = (n \<noteq> 0)"
| "truthy (JStr s) = (s \<noteq> [])"
| "truthy (JArr xs) = (xs \<noteq> [])"
| "truthy (JObj kvs) = (kvs \<noteq> [])"

text \<open>\<^verbatim>\<open>key in x\<close> for a string key.\<close>

fun py_contains :: "json \<Rightarrow> string \<Rightarrow> exn + bool" where
  "py_contains (JObj kvs) k = Inr (map_of kvs k \<noteq> None)"
| "py_contains (JArr xs) k = Inr (JStr k \<in> set xs)"
| "py_contains (JStr s) k = Inr (str_in k s)"
| "py_contains _ k = Inl TypeError"

text \<open>\<^verbatim>\<open>x[key]\<close> for a string key.\<close>

fun py_getitem :: "json \<Rightarrow> string \<Rightarrow> exn + json" where
  "py_getitem (JObj kvs) k = (case map_of kvs k of None \<Rightarrow> Inl KeyError | Some v \<Rightarrow> Inr v)"
| "py_getitem _ k = Inl TypeError"

text \<open>\<^verbatim>\<open>for item in x\<close>: the items of a list, the keys of a dict, the characters of a string.\<close>

fun py_iter :: "json \<Rightarrow> exn + json list" where
  "py_iter (JArr xs) = Inr xs"
| "py_iter (JObj kvs) = Inr (map (\<lambda>(k, v). JStr k) kvs)"
| "py_iter (JStr s) = Inr (map (\<lambda>c. JStr [c]) s)"
| "py_iter _ = Inl TypeError"

text \<open>\<^verbatim>\<open>x.keys()\<close>.\<close>

fun py_keys :: "json \<Rightarrow> exn + string list" where
  "py_keys (JObj kvs) = Inr (map fst kvs)"
| "py_keys _ = Inl AttributeError"

section \<open>Documents and library calls\<close>

text \<open>
  A parsed document is given by the answers of the queries the extraction methods
  make: \<^verbatim>\<open>select_one\<close> for a selector, \<^verbatim>\<open>find_all('script', type='text/javascript')\<close>
  and \<^verbatim>\<open>find_all('img')\<close>. An element has its attributes and, for a script, its
  \<^verbatim>\<open>.string\<close>. A tag object is always true in a condition.
\<close>

record element =
  attrs :: "string \<rightharpoonup> string"
  tag_string :: "string option"

record document =
  select_one :: "string \<Rightarrow> element option"
  find_all_script :: "element list"
  find_all_img :: "element list"

text \<open>
  The calls into libraries and the network, as parameters: \<^verbatim>\<open>json.loads\<close>, the two
  \<^verbatim>\<open>re.findall\<close> scans of method 2 (\<^verbatim>\<open>var data = (\{.*?\});\<close> and the raw image
  address pattern), the page fetch with \<^verbatim>\<open>raise_for_status\<close>, and the two parsers.
\<close>

record env =
  json_loads :: "string \<Rightarrow> exn + json"
  findall_var_data :: "string \<Rightarrow> string list"
  findall_image_urls :: "string \<Rightarrow> string list"
  fetch_html :: "string \<Rightarrow> exn + string"
  parse_lxml :: "string \<Rightarrow> exn + document"
  parse_html_parser :: "string \<Rightarrow> exn + document"

section \<open>The extraction methods\<close>

text \<open>
  Every method returns \<open>Inr (Some url)\<close> for \<^verbatim>\<open>return url\<close>, \<open>Inr None\<close> for
  \<^verbatim>\<open>return None\<close> and \<open>Inl e\<close> when the exception \<open>e\<close> leaves the method. The
  \<^verbatim>\<open>debug\<close> and \<^verbatim>\<open>profile\<close> flags only add log lines and are left out.
\<close>

text \<open>\<^verbatim>\<open>json.loads(attr)\<close> followed by \<^verbatim>\<open>.keys()\<close>, as methods 1 and 4 do.\<close>

definition dynamic_image_keys :: "env \<Rightarrow> string \<Rightarrow> exn + string list" where
  "dynamic_image_keys E a =
     (case json_loads E a of
        Inl e \<Rightarrow> Inl e
      | Inr image_data \<Rightarrow> py_keys image_data)"

definition extract_method_1 :: "env \<Rightarrow> document \<Rightarrow> exn + string option" where
  "extract_method_1 E soup =
     (case select_one soup ''#imgBlkFront, #ebooksImgBlkFront'' of
        None \<Rightarrow> Inr None
      | Some img_element \<Rightarrow>
          (case attrs img_element ''data-a-dynamic-image'' of
             None \<Rightarrow> Inr None
           | Some a \<Rightarrow>
               (case dynamic_image_keys E a of
                  Inl e \<Rightarrow> Inr None
                | Inr urls \<Rightarrow> Inr (find is_valid_image_url urls))))"

text \<open>
  \<^verbatim>\<open>is_valid_image_url(url)\<close> on the value of a JSON field, with the address it lets
  through: a string is validated; any other false value is refused at \<^verbatim>\<open>if not url\<close>;
  any other true value raises \<^verbatim>\<open>AttributeError\<close> at \<^verbatim>\<open>url.lower()\<close>.
\<close>

fun validate_value :: "json \<Rightarrow> exn + string option" where
  "validate_value (JStr s) = Inr (if is_valid_image_url s then Some s else None)"
| "validate_value v = (if truthy v then Inl AttributeError else Inr None)"

fun gallery_items :: "json list \<Rightarrow> exn + string option" where
  "gallery_items [] = Inr None"
| "gallery_items (item # items) =
     (case py_contains item ''mainUrl'' of
        Inl e \<Rightarrow> Inl e
      | Inr False \<Rightarrow> gallery_items items
      | Inr True \<Rightarrow>
          (case py_getitem item ''mainUrl'' of
             Inl e \<Rightarrow> Inl e
           | Inr url \<Rightarrow>
               (case validate_value url of
                  Inl e \<Rightarrow> Inl e
                | Inr (Some s) \<Rightarrow> Inr (Some s)
                | Inr None \<Rightarrow> gallery_items items)))"

text \<open>The inner \<^verbatim>\<open>try\<close> of method 2 for one match; only \<^verbatim>\<open>JSONDecodeError\<close> is caught there.\<close>

definition gallery_match :: "env \<Rightarrow> string \<Rightarrow> exn + string option" where
  "gallery_match E m =
     (case json_loads E m of
        Inl e \<Rightarrow> (if e = JSONDecodeError then Inr None else Inl e)
      | Inr data \<Rightarrow>
          (case py_contains data ''imageGalleryData'' of
             Inl e \<Rightarrow> Inl e
           | Inr False \<Rightarrow> Inr None
           | Inr True \<Rightarrow>
               (case py_getitem data ''imageGalleryData'' of
                  Inl e \<Rightarrow> Inl e
                | Inr g \<Rightarrow>
                    if truthy g then
                      (case py_iter g of
                         Inl e \<Rightarrow> Inl e
                       | Inr items \<Rightarrow> gallery_items items)
                    else Inr None)))"

fun gallery_matches :: "env \<Rightarrow> string list \<Rightarrow> exn + string option" where
  "gallery_matches E [] = Inr None"
| "gallery_matches E (m # ms) =
     (case gallery_match E m of
        Inl e \<Rightarrow> Inl e
      | Inr (Some url) \<Rightarrow> Inr (Some url)
      | Inr None \<Rightarrow> gallery_matches E ms)"

text \<open>
  The body of the loop over the scripts: \<open>Some url\<close> when the method returns there.
  The outer \<^verbatim>\<open>except Exception\<close> ends the gallery scan of this script.
\<close>

definition script_result :: "env \<Rightarrow> element \<Rightarrow> string option" where
  "script_result E script =
     (case tag_string script of
        None \<Rightarrow> None
      | Some s \<Rightarrow>
          if s = [] then None
          else
            (let gallery =
                   (if str_in ''imageGalleryData'' s then
                      (case gallery_matches E (findall_var_data E s) of
                         Inl e \<Rightarrow> None
                       | Inr r \<Rightarrow> r)
                    else None)
             in case gallery of
                  Some url \<Rightarrow> Some url
                | None \<Rightarrow>
                    if str_in ''ImageBlockATF'' s
                    then find is_valid_image_url (findall_image_urls E s)
                    else None))"

fun first_script_result :: "env \<Rightarrow> element list \<Rightarrow> string option" where
  "first_script_result E [] = None"
| "first_script_result E (script # scripts) =
     (case script_result E script of
        Some url \<Rightarrow> Some url
      | None \<Rightarrow> first_script_result E scripts)"

definition extract_method_2 :: "env \<Rightarrow> document \<Rightarrow> exn + string option" where
  "extract_method_2 E soup = Inr (first_script_result E (find_all_script soup))"

definition extract_method_3 :: "env \<Rightarrow> document \<Rightarrow> exn + string option" where
  "extract_method_3 E soup =
     (case select_one soup
             ''#imageBlock_feature_div img, #main-image-container img, #imgTagWrapperId img'' of
        None \<Rightarrow> Inr None
      | Some img_gallery \<Rightarrow>
          (case attrs img_gallery ''src'' of
             None \<Rightarrow> Inr None
           | Some src \<Rightarrow>
               if is_valid_image_url src then Inr (Some src)
               else
                 (case attrs img_gallery ''data-old-hires'' of
                    None \<Rightarrow> Inr None
                  | Some old_hires \<Rightarrow>
                      if is_valid_image_url old_hires then Inr (Some old_hires)
                      else Inr None)))"

definition extract_method_4 :: "env \<Rightarrow> document \<Rightarrow> exn + string option" where
  "extract_method_4 E soup =
     (case select_one soup ''#landingImage, #imgBlkFront, #main-image, #img-canvas img'' of
        None \<Rightarrow> Inr None
      | Some main_image \<Rightarrow>
          (case attrs main_image ''src'' of
             None \<Rightarrow> Inr None
           | Some src \<Rightarrow>
               if is_valid_image_url src then Inr (Some src)
               else
                 (case attrs main_image ''data-a-dynamic-image'' of
                    None \<Rightarrow> Inr None
                  | Some a \<Rightarrow>
                      (case dynamic_image_keys E a of
                         Inl e \<Rightarrow> (if e = JSONDecodeError then Inr None else Inl e)
                       | Inr image_urls \<Rightarrow> Inr (find is_valid_image_url image_urls)))))"

definition extract_method_5 :: "env \<Rightarrow> document \<Rightarrow> exn + string option" where
  "extract_method_5 E soup =
     (case select_one soup
             ''.a-fixed-left-grid-col img, .a-fixed-right-grid-col img, .dp-title-col img'' of
        None \<Rightarrow> Inr None
      | Some book_image \<Rightarrow>
          (case attrs book_image ''src'' of
             None \<Rightarrow> Inr None
           | Some src \<Rightarrow> if is_valid_image_url src then Inr (Some src) else Inr None))"

fun alt_text_images :: "element list \<Rightarrow> string option" where
  "alt_text_images [] = None"
| "alt_text_images (img # imgs) =
     (case attrs img ''src'' of
        None \<Rightarrow> alt_text_images imgs
      | Some src \<Rightarrow>
          (let alt = lower (case attrs img ''alt'' of None \<Rightarrow> [] | Some a \<Rightarrow> a)
           in if (str_in ''book'' alt \<or> str_in ''cover'' alt \<or> str_in ''product'' alt)
                 \<and> is_valid_image_url src
              then Some src
              else alt_text_images imgs))"

definition extract_method_6 :: "env \<Rightarrow> document \<Rightarrow> exn + string option" where
  "extract_method_6 E soup = Inr (alt_text_images (find_all_img soup))"

fun large_images :: "element list \<Rightarrow> string option" where
  "large_images [] = None"
| "large_images (img # imgs) =
     (case (attrs img ''src'', attrs img ''width'', attrs img ''height'') of
        (Some src, Some w, Some h) \<Rightarrow>
          (case py_int w of
             Inl e \<Rightarrow> large_images imgs
           | Inr width \<Rightarrow>
               (case py_int h of
                  Inl e \<Rightarrow> large_images imgs
                | Inr height \<Rightarrow>
                    if width \<ge> 200 \<and> height \<ge> 200 \<and> is_valid_image_url src
                    then Some src
                    else large_images imgs))
      | _ \<Rightarrow> large_images imgs)"

definition extract_method_7 :: "env \<Rightarrow> document \<Rightarrow> exn + string option" where
  "extract_method_7 E soup = Inr (large_images (find_all_img soup))"

section \<open>The resolution engine\<close>

definition fetch_and_parse :: "env \<Rightarrow> string \<Rightarrow> exn + document" where
  "fetch_and_parse E url =
     (case fetch_html E url of
        Inl e \<Rightarrow> Inl e
      | Inr html \<Rightarrow>
          (case parse_lxml E html of
             Inr soup \<Rightarrow> Inr soup
           | Inl e \<Rightarrow> parse_html_parser E html))"

definition methods :: "(env \<Rightarrow> document \<Rightarrow> exn + string option) list" where
  "methods =
     [extract_method_1, extract_method_2, extract_method_3, extract_method_4,
      extract_method_5, extract_method_6, extract_method_7]"

text \<open>The loop over the methods: the first result that is true in \<^verbatim>\<open>if image_url\<close> is returned.\<close>

fun run_methods ::
  "(env \<Rightarrow> document \<Rightarrow> exn + string option) list \<Rightarrow> env \<Rightarrow> document \<Rightarrow> exn + string option"
where
  "run_methods [] E soup = Inr None"
| "run_methods (method # rest) E soup =
     (case method E soup of
        Inl e \<Rightarrow> Inl e
      | Inr None \<Rightarrow> run_methods rest E soup
      | Inr (Some image_url) \<Rightarrow>
          if image_url \<noteq> [] then Inr (Some image_url) else run_methods rest E soup)"

text \<open>The body of the \<^verbatim>\<open>try\<close> of \<^verbatim>\<open>extract_image_url\<close>.\<close>

definition extract_try :: "env \<Rightarrow> string \<Rightarrow> exn + string option" where
  "extract_try E url =
     (case fetch_and_parse E url of
        Inl e \<Rightarrow> Inl e
      | Inr soup \<Rightarrow> run_methods methods E soup)"

text \<open>\<^verbatim>\<open>except Exception\<close>: the error is logged and \<^verbatim>\<open>None\<close> returned.\<close>

definition extract_image_url :: "env \<Rightarrow> string \<Rightarrow> exn + string option" where
  "extract_image_url E url =
     (case extract_try E url of
        Inl e \<Rightarrow> Inr None
      | Inr image_url \<Rightarrow> Inr image_url)"

section \<open>The cache\<close>

text \<open>
  The two stores behind \<^verbatim>\<open>BookImageCache\<close>. The cache file is missing, or loading and
  using it raises an exception (an unreadable file, bytes that do not unpickle), or it
  holds a dict from keys to addresses.

  The networked store is a server outside the program. It is described by the three
  commands the program sends, \<^verbatim>\<open>PING\<close>, \<^verbatim>\<open>GET\<close> and \<^verbatim>\<open>SETEX\<close>, on a state that says
  whether the server answers, what its clock shows in seconds and, for each key, the
  value with the time at which it expires. A command to a server that does not answer
  raises a connection error in the client; \<^verbatim>\<open>SETEX\<close> refuses a time-to-live that is
  not positive; \<^verbatim>\<open>GET\<close> does not return a value whose time has come. Values are kept
  as strings: encoding to bytes on the way in and \<^verbatim>\<open>decode()\<close> on the way out
  cancel.
\<close>

datatype file_state =
    FileMissing
  | FileCorrupt exn
  | FileMap "string \<rightharpoonup> string"

record redis_server =
  answers :: bool
  clock :: nat
  entries :: "string \<rightharpoonup> (string \<times> nat)"

record world =
  file_db :: file_state
  redis :: redis_server

definition redis_ping :: "redis_server \<Rightarrow> exn + unit" where
  "redis_ping srv = (if answers srv then Inr () else Inl (OtherException ''ConnectionError''))"

definition redis_get :: "redis_server \<Rightarrow> string \<Rightarrow> exn + string option" where
  "redis_get srv key =
     (if \<not> answers srv then Inl (OtherException ''ConnectionError'')
      else Inr (case entries srv key of
                  None \<Rightarrow> None
                | Some (v, expires) \<Rightarrow> if clock srv < expires then Some v else None))"

definition redis_setex :: "redis_server \<Rightarrow> string \<Rightarrow> int \<Rightarrow> string \<Rightarrow> exn + redis_server" where
  "redis_setex srv key ttl v =
     (if \<not> answers srv then Inl (OtherException ''ConnectionError'')
      else if ttl \<le> 0 then Inl (OtherException ''ResponseError'')
      else Inr (srv\<lparr>entries := (entries srv)(key \<mapsto> (v, clock srv + nat ttl))\<rparr>))"

definition ONE_YEAR :: int where
  "ONE_YEAR = 31536000"

definition DEFAULT_CACHE_TIMEOUT :: int where
  "DEFAULT_CACHE_TIMEOUT = ONE_YEAR"

definition DEFAULT_KEY_PREFIX :: string where
  "DEFAULT_KEY_PREFIX = ''amazon_book_image''"

text \<open>The three settings \<^verbatim>\<open>__init__\<close> reads; \<open>None\<close> is a setting that is absent.\<close>

record config =
  CACHE_REDIS_URL :: "string option"
  CACHE_TIMEOUT :: "int option"
  CACHE_KEY_PREFIX :: "string option"

record cache =
  use_redis :: bool
  key_prefix :: string
  timeout :: int

text \<open>
  \<^verbatim>\<open>BookImageCache.__init__\<close>. \<open>redis_module\<close> tells whether \<^verbatim>\<open>import redis\<close> worked.
  The probe is tried only for an address that starts with \<^verbatim>\<open>redis://\<close>; when it
  raises, the exception is logged and the file store is used.
\<close>

definition BookImageCache :: "bool \<Rightarrow> config \<Rightarrow> redis_server \<Rightarrow> cache" where
  "BookImageCache redis_module cfg srv =
     \<lparr> use_redis =
         (case CACHE_REDIS_URL cfg of
            None \<Rightarrow> False
          | Some redis_url \<Rightarrow>
              if redis_module \<and> redis_url \<noteq> [] \<and> prefix ''redis://'' redis_url
              then (case redis_ping srv of Inl e \<Rightarrow> False | Inr _ \<Rightarrow> True)
              else False),
       key_prefix = (case CACHE_KEY_PREFIX cfg of None \<Rightarrow> DEFAULT_KEY_PREFIX | Some p \<Rightarrow> p),
       timeout = (case CACHE_TIMEOUT cfg of None \<Rightarrow> DEFAULT_CACHE_TIMEOUT | Some t \<Rightarrow> t) \<rparr>"

definition cache_key :: "cache \<Rightarrow> string \<Rightarrow> string" where
  "cache_key c book_url = key_prefix c @ '':'' @ book_url"

text \<open>
  \<^verbatim>\<open>get\<close>. From redis an empty value is false in \<^verbatim>\<open>if result\<close> and counts as a miss.
  The file store is loaded without a \<^verbatim>\<open>try\<close>.
\<close>

definition cache_get :: "cache \<Rightarrow> world \<Rightarrow> string \<Rightarrow> exn + string option" where
  "cache_get c w book_url =
     (let key = cache_key c book_url
      in if use_redis c then
           (case redis_get (redis w) key of
              Inl e \<Rightarrow> Inl e
            | Inr None \<Rightarrow> Inr None
            | Inr (Some result) \<Rightarrow> if result \<noteq> [] then Inr (Some result) else Inr None)
         else
           (case file_db w of
              FileMissing \<Rightarrow> Inr None
            | FileCorrupt e \<Rightarrow> Inl e
            | FileMap cache \<Rightarrow> Inr (cache key)))"

text \<open>\<^verbatim>\<open>set\<close> returns the world it leaves; when it raises, nothing has been written.\<close>

definition cache_set :: "cache \<Rightarrow> world \<Rightarrow> string \<Rightarrow> string \<Rightarrow> exn + world" where
  "cache_set c w book_url image_url =
     (let key = cache_key c book_url
      in if use_redis c then
           (case redis_setex (redis w) key (timeout c) image_url of
              Inl e \<Rightarrow> Inl e
            | Inr srv \<Rightarrow> Inr (w\<lparr>redis := srv\<rparr>))
         else
           (case file_db w of
              FileMissing \<Rightarrow> Inr (w\<lparr>file_db := FileMap (Map.empty(key \<mapsto> image_url))\<rparr>)
            | FileCorrupt e \<Rightarrow> Inl e
            | FileMap cache \<Rightarrow> Inr (w\<lparr>file_db := FileMap (cache(key \<mapsto> image_url))\<rparr>)))"

section \<open>The request handler\<close>

datatype response =
    BadRequest string
  | Found string bool bool
  | NotFound
  | ServerError exn

text \<open>
  \<^verbatim>\<open>get_book_image\<close> for the query parameter \<^verbatim>\<open>url\<close> (\<open>None\<close> when it is absent), with
  the cache object of the application. \<open>Found image_url cached use_redis\<close> is the
  answer 200, \<open>BadRequest\<close> 400, \<open>NotFound\<close> 404 and \<open>ServerError\<close> 500.
\<close>

definition extract_and_store :: "env \<Rightarrow> cache \<Rightarrow> world \<Rightarrow> string \<Rightarrow> response \<times> world" where
  "extract_and_store E c w book_url =
     (case extract_image_url E book_url of
        Inl e \<Rightarrow> (ServerError e, w)
      | Inr None \<Rightarrow> (NotFound, w)
      | Inr (Some image_url) \<Rightarrow>
          if image_url \<noteq> [] then
            (case cache_set c w book_url image_url of
               Inl e \<Rightarrow> (ServerError e, w)
             | Inr w' \<Rightarrow> (Found image_url False (use_redis c), w'))
          else (NotFound, w))"

definition get_book_image :: "env \<Rightarrow> cache \<Rightarrow> world \<Rightarrow> string option \<Rightarrow> response \<times> world" where
  "get_book_image E c w url_param =
     (case url_param of
        None \<Rightarrow> (BadRequest ''Missing book URL parameter'', w)
      | Some book_url \<Rightarrow>
          if book_url = [] then (BadRequest ''Missing book URL parameter'', w)
          else if \<not> str_in ''amazon'' (lower book_url)
          then (BadRequest ''Only Amazon book URLs are supported'', w)
          else
            (case cache_get c w book_url of
               Inl e \<Rightarrow> (ServerError e, w)
             | Inr (Some image_url) \<Rightarrow>
                 if image_url \<noteq> [] then (Found image_url True (use_redis c), w)
                 else extract_and_store E c w book_url
             | Inr None \<Rightarrow> extract_and_store E c w book_url))"

text \<open>
  The worlds the handler can reach from a world without cache entries: requests are
  served, with any outcome of the network, and time passes on the redis server.
\<close>

definition no_entries :: "world \<Rightarrow> bool" where
  "no_entries w \<longleftrightarrow> file_db w = FileMissing \<and> entries (redis w) = Map.empty"

inductive reachable :: "cache \<Rightarrow> world \<Rightarrow> bool" for c :: cache where
  start: "no_entries w \<Longrightarrow> reachable c w"
| request: "reachable c w \<Longrightarrow> snd (get_book_image E c w url_param) = w' \<Longrightarrow> reachable c w'"
| tick: "reachable c w \<Longrightarrow>
         reachable c (w\<lparr>redis := (redis w)\<lparr>clock := t, answers := a\<rparr>\<rparr>)"

text \<open>Every address held by the cache passes the validator.\<close>

definition stored_valid :: "world \<Rightarrow> bool" where
  "stored_valid w \<longleftrightarrow>
     (\<forall>m key v. file_db w = FileMap m \<longrightarrow> m key = Some v \<longrightarrow> is_valid_image_url v) \<and>
     (\<forall>key v expires. entries (redis w) key = Some (v, expires) \<longrightarrow> is_valid_image_url v)"

text \<open>\<^verbatim>\<open>set(u, v)\<close> immediately followed by \<^verbatim>\<open>get(u)\<close>: what the second call returns.\<close>

definition set_then_get :: "cache \<Rightarrow> world \<Rightarrow> string \<Rightarrow> string \<Rightarrow> exn + string option" where
  "set_then_get c w book_url image_url =
     (case cache_set c w book_url image_url of
        Inl e \<Rightarrow> Inl e
      | Inr w' \<Rightarrow> cache_get c w' book_url)"

section \<open>Example pages\<close>

text \<open>
  A page whose main image carries a list where the dictionary is expected:
  \<^verbatim>\<open><img id="landingImage" src="loading.gif" data-a-dynamic-image="[]">\<close>
  followed by
  \<^verbatim>\<open><img src="https://m.media-amazon.com/images/I/abc.jpg" alt="Book cover">\<close>.
  No other element that a selector of the methods names, and no script.
\<close>

definition list_page_landing :: element where
  "list_page_landing =
     \<lparr> attrs = [''id'' \<mapsto> ''landingImage'', ''src'' \<mapsto> ''loading.gif'',
                ''data-a-dynamic-image'' \<mapsto> ''[]''],
       tag_string = None \<rparr>"

definition list_page_cover :: element where
  "list_page_cover =
     \<lparr> attrs = [''src'' \<mapsto> ''https://m.media-amazon.com/images/I/abc.jpg'',
                ''alt'' \<mapsto> ''Book cover''],
       tag_string = None \<rparr>"

definition list_page :: document where
  "list_page =
     \<lparr> select_one =
         (\<lambda>selector.
            if selector = ''#landingImage, #imgBlkFront, #main-image, #img-canvas img''
            then Some list_page_landing else None),
       find_all_script = [],
       find_all_img = [list_page_landing, list_page_cover] \<rparr>"

text \<open>
  A network that serves this page for every address, and \<^verbatim>\<open>json.loads\<close> on the one
  text the page holds, \<^verbatim>\<open>[]\<close>, the empty list.
\<close>

definition list_page_env :: env where
  "list_page_env =
     \<lparr> json_loads = (\<lambda>s. if s = ''[]'' then Inr (JArr []) else Inl JSONDecodeError),
       findall_var_data = (\<lambda>s. []),
       findall_image_urls = (\<lambda>s. []),
       fetch_html = (\<lambda>url. Inr ''<html>''),
       parse_lxml = (\<lambda>html. Inr list_page),
       parse_html_parser = (\<lambda>html. Inr list_page) \<rparr>"

text \<open>A page without images and scripts, and a network that is down.\<close>

definition empty_page :: document where
  "empty_page =
     \<lparr> select_one = (\<lambda>selector. None), find_all_script = [], find_all_img = [] \<rparr>"

definition empty_page_env :: env where
  "empty_page_env =
     \<lparr> json_loads = (\<lambda>s. Inl JSONDecodeError),
       findall_var_data = (\<lambda>s. []),
       findall_image_urls = (\<lambda>s. []),
       fetch_html = (\<lambda>url. Inr ''<html>''),
       parse_lxml = (\<lambda>html. Inr empty_page),
       parse_html_parser = (\<lambda>html. Inr empty_page) \<rparr>"

definition network_down_env :: env where
  "network_down_env = empty_page_env\<lparr>fetch_html := (\<lambda>url. Inl (OtherException ''ConnectionError''))\<rparr>"

text \<open>
  The page of the first example of the specification: the front image with a
  dictionary of one address, which also shows as an image with an alternative text.
\<close>

definition front_page_image :: element where
  "front_page_image =
     \<lparr> attrs = [''id'' \<mapsto> ''imgBlkFront'', ''src'' \<mapsto> ''https://m.media-amazon.com/images/I/small.jpg'',
                ''alt'' \<mapsto> ''Book cover'', ''data-a-dynamic-image'' \<mapsto> ''{}''],
       tag_string = None \<rparr>"

definition front_page :: document where
  "front_page =
     \<lparr> select_one =
         (\<lambda>selector.
            if selector = ''#imgBlkFront, #ebooksImgBlkFront'' \<or>
               selector = ''#landingImage, #imgBlkFront, #main-image, #img-canvas img''
            then Some front_page_image else None),
       find_all_script = [],
       find_all_img = [front_page_image] \<rparr>"

definition front_page_env :: env where
  "front_page_env =
     \<lparr> json_loads =
         (\<lambda>s. if s = ''{}''
              then Inr (JObj [(''https://m.media-amazon.com/images/I/abc._SX300_SY400_.jpg'',
                               JArr [JNum 300, JNum 400])])
              else Inl JSONDecodeError),
       findall_var_data = (\<lambda>s. []),
       findall_image_urls = (\<lambda>s. []),
       fetch_html = (\<lambda>url. Inr ''<html>''),
       parse_lxml = (\<lambda>html. Inr front_page),
       parse_html_parser = (\<lambda>html. Inr front_page) \<rparr>"

section \<open>Example stores\<close>

text \<open>
  A redis server that answers and one that does not, both without keys; the settings
  of the application with the default address of the server; a world with no cache
  file yet, one whose cache file does not unpickle, and one whose file holds an entry.
\<close>

definition redis_up :: redis_server where
  "redis_up = \<lparr> answers = True, clock = 0, entries = Map.empty \<rparr>"

definition redis_down :: redis_server where
  "redis_down = \<lparr> answers = False, clock = 0, entries = Map.empty \<rparr>"

definition app_config :: config where
  "app_config =
     \<lparr> CACHE_REDIS_URL = Some ''redis://localhost:6379/0'',
       CACHE_TIMEOUT = None,
       CACHE_KEY_PREFIX = None \<rparr>"

definition fresh_world :: world where
  "fresh_world = \<lparr> file_db = FileMissing, redis = redis_up \<rparr>"

definition offline_world :: world where
  "offline_world = \<lparr> file_db = FileMissing, redis = redis_down \<rparr>"

definition corrupt_world :: world where
  "corrupt_world =
     \<lparr> file_db = FileCorrupt (OtherException ''UnpicklingError''), redis = redis_down \<rparr>"

definition stocked_world :: world where
  "stocked_world =
     \<lparr> file_db = FileMap [''amazon_book_image:https://www.amazon.com/dp/1111111111'' \<mapsto>
                           ''https://m.media-amazon.com/images/I/one.jpg''],
       redis = redis_down \<rparr>"

section \<open>Properties of the validator\<close>

lemma str_in_sublist: "str_in needle hay = sublist needle hay"
  by (induction hay) (simp_all add: sublist_Cons_right)

lemma str_in_iff: "str_in needle hay \<longleftrightarrow> (\<exists>ps ss. hay = ps @ needle @ ss)"
  by (simp add: str_in_sublist sublist_def)

lemma lower_append: "lower (xs @ ys) = lower xs @ lower ys"
  by (simp add: lower_def)

lemma str_in_lower_iff:
  "str_in p (lower url) \<longleftrightarrow> (\<exists>pre mid suf. url = pre @ mid @ suf \<and> lower mid = p)"
proof
  assume "str_in p (lower url)"
  then obtain ps ss where "map lower_char url = ps @ p @ ss"
    unfolding str_in_iff lower_def by (elim exE)
  then have "\<exists>us vs. url = us @ vs \<and> ps = map lower_char us \<and> p @ ss = map lower_char vs"
    by (simp only: map_eq_append_conv)
  then obtain us vs where 1: "url = us @ vs" "p @ ss = map lower_char vs"
    by (elim exE conjE)
  from 1(2) have "\<exists>ms ts. vs = ms @ ts \<and> p = map lower_char ms \<and> ss = map lower_char ts"
    by (simp only: append_eq_map_conv)
  then obtain ms ts where 2: "vs = ms @ ts" "p = map lower_char ms"
    by (elim exE conjE)
  from 1 2 have "url = us @ ms @ ts \<and> lower ms = p" by (simp add: lower_def)
  then show "\<exists>pre mid suf. url = pre @ mid @ suf \<and> lower mid = p" by (intro exI)
next
  assume "\<exists>pre mid suf. url = pre @ mid @ suf \<and> lower mid = p"
  then obtain pre mid suf where "url = pre @ mid @ suf" "lower mid = p" by (elim exE conjE)
  then have "lower url = lower pre @ p @ lower suf" by (simp add: lower_append)
  then show "str_in p (lower url)" unfolding str_in_iff by (intro exI)
qed









lemma placeholder_found:
  assumes "marker \<in> set PLACEHOLDER_IMAGES" and "url = pre @ mid @ suf" and "lower mid = marker"
  shows "list_ex (\<lambda>placeholder. str_in placeholder (lower url)) PLACEHOLDER_IMAGES"
proof -
  from assms(2,3) have "str_in marker (lower url)"
    unfolding str_in_lower_iff by (intro exI conjI)
  with assms(1) show ?thesis unfolding list_ex_iff by (rule bexI [rotated])
qed

text \<open>
  C4: a candidate that contains one of the placeholder markers, in any mix of upper and
  lower case, is refused, whatever its host, extension and dimension tokens are. The
  marker is met as a run \<open>mid\<close> of the candidate whose lower-case form is the marker.
\<close>

theorem placeholder_rejected:
  assumes "marker \<in> set PLACEHOLDER_IMAGES" and "url = pre @ mid @ suf" and "lower mid = marker"
  shows "is_valid_image_url url = False"
  using placeholder_found [OF assms] by (simp add: is_valid_image_url_def)

text \<open>The marker \<^verbatim>\<open>loading\<close>, written \<^verbatim>\<open>LoadinG\<close>, in an address of the image host.\<close>

theorem placeholder_rejected_witness:
  "''loading'' \<in> set PLACEHOLDER_IMAGES \<and> lower ''LoadinG'' = ''loading'' \<and>
   is_valid_image_url (''https://m.media-amazon.com/images/I/'' @ ''LoadinG'' @ ''-abc.jpg'') = False"
proof -
  have m: "''loading'' \<in> set PLACEHOLDER_IMAGES" by (simp add: PLACEHOLDER_IMAGES_def)
  have l: "lower ''LoadinG'' = ''loading''" by code_simp
  from placeholder_rejected [OF m refl l] m l show ?thesis by (intro conjI)
qed




text \<open>
  C2: a candidate without placeholder marker that the dimension check does not refuse is
  accepted exactly when it contains a host fragment (\<^verbatim>\<open>amazon\<close> or
  \<^verbatim>\<open>images-na.ssl-images-amazon.com\<close>) and either one of the five extensions, in any
  mix of case, or the marker \<^verbatim>\<open>images-amazon\<close>. The host fragments and the marker are
  matched as they are written; an extension counts wherever it occurs in the
  candidate, as the code tests it with \<^verbatim>\<open>in\<close>.
\<close>

theorem validator_accepts_iff:
  assumes "\<not> (\<exists>marker \<in> set PLACEHOLDER_IMAGES.
               \<exists>pre mid suf. url = pre @ mid @ suf \<and> lower mid = marker)"
      and "\<not> small_dimensions url"
  shows "is_valid_image_url url \<longleftrightarrow>
           (str_in ''amazon'' url \<or> str_in ''images-na.ssl-images-amazon.com'' url) \<and>
           ((\<exists>ext \<in> set image_extensions. \<exists>pre mid suf. url = pre @ mid @ suf \<and> lower mid = ext)
            \<or> str_in ''images-amazon'' url)"
proof -
  from assms(1) have p: "\<not> list_ex (\<lambda>placeholder. str_in placeholder (lower url)) PLACEHOLDER_IMAGES"
    unfolding list_ex_iff str_in_lower_iff .
  have e: "list_ex (\<lambda>ext. str_in ext (lower url)) image_extensions \<longleftrightarrow>
        (\<exists>ext \<in> set image_extensions. \<exists>pre mid suf. url = pre @ mid @ suf \<and> lower mid = ext)"
    unfolding list_ex_iff str_in_lower_iff by (rule refl)
  have n: "url = [] \<Longrightarrow> \<not> str_in ''amazon'' url \<and> \<not> str_in ''images-na.ssl-images-amazon.com'' url"
    by simp
  show ?thesis
  proof (cases "url = []")
    case True
    with n show ?thesis by (simp add: is_valid_image_url_def)
  next
    case False
    with p assms(2) show ?thesis
      unfolding e [symmetric] by (simp add: is_valid_image_url_def)
  qed
qed

text \<open>An address with the extension in upper case is accepted.\<close>

theorem validator_accepts_iff_witness:
  "\<not> (\<exists>marker \<in> set PLACEHOLDER_IMAGES.
        \<exists>pre mid suf. ''https://m.media-amazon.com/images/I/xyz.JPG'' = pre @ mid @ suf \<and>
          lower mid = marker) \<and>
   \<not> small_dimensions ''https://m.media-amazon.com/images/I/xyz.JPG'' \<and>
   is_valid_image_url ''https://m.media-amazon.com/images/I/xyz.JPG''"
proof -
  let ?u = "''https://m.media-amazon.com/images/I/xyz.JPG''"
  have "\<not> list_ex (\<lambda>placeholder. str_in placeholder (lower ?u)) PLACEHOLDER_IMAGES"
    by code_simp
  then have p: "\<not> (\<exists>marker \<in> set PLACEHOLDER_IMAGES.
      \<exists>pre mid suf. ?u = pre @ mid @ suf \<and> lower mid = marker)"
    unfolding list_ex_iff str_in_lower_iff .
  have d: "\<not> small_dimensions ?u" by code_simp
  have a: "str_in ''amazon'' ?u" by code_simp
  have "str_in ''.jpg'' (lower ?u)" by code_simp
  then have "\<exists>pre mid suf. ?u = pre @ mid @ suf \<and> lower mid = ''.jpg''"
    unfolding str_in_lower_iff .
  moreover have "''.jpg'' \<in> set image_extensions" by (simp add: image_extensions_def)
  ultimately have x: "\<exists>ext \<in> set image_extensions.
      \<exists>pre mid suf. ?u = pre @ mid @ suf \<and> lower mid = ext" by (rule bexI)
  from validator_accepts_iff [OF p d] a x have "is_valid_image_url ?u" by blast
  with p d show ?thesis by (intro conjI)
qed

section \<open>Properties of the extraction methods\<close>

text \<open>A method returns an address only after the validator has accepted it.\<close>

lemma find_holds: "find P xs = Some x \<Longrightarrow> P x"
  by (induction xs) (auto split: if_splits)

lemma is_valid_nonempty: "is_valid_image_url url \<Longrightarrow> url \<noteq> []"
  by (auto simp: is_valid_image_url_def)

lemma method_1_valid: "extract_method_1 E soup = Inr (Some url) \<Longrightarrow> is_valid_image_url url"
  by (auto simp: extract_method_1_def dest: find_holds split: option.splits sum.splits)

lemma method_1_returns: "\<exists>r. extract_method_1 E soup = Inr r"
  by (simp add: extract_method_1_def split: option.splits sum.splits)

lemma validate_value_valid: "validate_value v = Inr (Some s) \<Longrightarrow> is_valid_image_url s"
  by (cases v) (auto split: if_splits)

lemma gallery_items_valid: "gallery_items items = Inr (Some url) \<Longrightarrow> is_valid_image_url url"
proof (induction items)
  case Nil
  then show ?case by simp
next
  case (Cons item items)
  then show ?case
    by (auto split: sum.splits bool.splits option.splits if_splits dest: validate_value_valid)
qed

lemma gallery_match_valid: "gallery_match E m = Inr (Some url) \<Longrightarrow> is_valid_image_url url"
  by (auto simp: gallery_match_def split: sum.splits bool.splits if_splits
      dest: gallery_items_valid)

lemma gallery_matches_valid: "gallery_matches E ms = Inr (Some url) \<Longrightarrow> is_valid_image_url url"
proof (induction ms)
  case Nil
  then show ?case by simp
next
  case (Cons m ms)
  then show ?case
    by (auto split: sum.splits option.splits dest: gallery_match_valid)
qed

lemma script_result_valid: "script_result E script = Some url \<Longrightarrow> is_valid_image_url url"
  by (auto simp: script_result_def Let_def split: option.splits if_splits sum.splits
      dest: gallery_matches_valid find_holds)

lemma first_script_result_valid:
  "first_script_result E scripts = Some url \<Longrightarrow> is_valid_image_url url"
  by (induction scripts) (auto split: option.splits dest: script_result_valid)

lemma method_2_valid: "extract_method_2 E soup = Inr (Some url) \<Longrightarrow> is_valid_image_url url"
  by (auto simp: extract_method_2_def dest: first_script_result_valid)

lemma method_3_valid: "extract_method_3 E soup = Inr (Some url) \<Longrightarrow> is_valid_image_url url"
  by (auto simp: extract_method_3_def split: option.splits if_splits)

lemma method_3_returns: "\<exists>r. extract_method_3 E soup = Inr r"
  by (simp add: extract_method_3_def split: option.splits)

lemma method_4_valid: "extract_method_4 E soup = Inr (Some url) \<Longrightarrow> is_valid_image_url url"
  by (auto simp: extract_method_4_def dest: find_holds split: option.splits if_splits sum.splits)

lemma method_5_valid: "extract_method_5 E soup = Inr (Some url) \<Longrightarrow> is_valid_image_url url"
  by (auto simp: extract_method_5_def split: option.splits if_splits)

lemma method_5_returns: "\<exists>r. extract_method_5 E soup = Inr r"
  by (simp add: extract_method_5_def split: option.splits)

lemma alt_text_images_valid: "alt_text_images imgs = Some url \<Longrightarrow> is_valid_image_url url"
  by (induction imgs) (auto simp: Let_def split: option.splits if_splits)

lemma method_6_valid: "extract_method_6 E soup = Inr (Some url) \<Longrightarrow> is_valid_image_url url"
  by (auto simp: extract_method_6_def dest: alt_text_images_valid)

lemma large_images_valid: "large_images imgs = Some url \<Longrightarrow> is_valid_image_url url"
  by (induction imgs) (auto split: option.splits if_splits sum.splits)

lemma method_7_valid: "extract_method_7 E soup = Inr (Some url) \<Longrightarrow> is_valid_image_url url"
  by (auto simp: extract_method_7_def dest: large_images_valid)

lemma methods_valid:
  "method \<in> set methods \<Longrightarrow> method E soup = Inr (Some url) \<Longrightarrow> is_valid_image_url url"
  unfolding methods_def
  using method_1_valid method_2_valid method_3_valid method_4_valid method_5_valid
    method_6_valid method_7_valid
  by auto

lemma run_methods_valid:
  assumes "\<And>method url. method \<in> set ms \<Longrightarrow> method E soup = Inr (Some url) \<Longrightarrow> P url"
    and "run_methods ms E soup = Inr (Some url)"
  shows "P url"
  using assms
proof (induction ms)
  case Nil
  then show ?case by simp
next
  case (Cons m ms)
  show ?case
  proof (cases "m E soup")
    case (Inl e)
    with Cons.prems(2) show ?thesis by simp
  next
    case (Inr r)
    show ?thesis
    proof (cases "r = Some url \<and> url \<noteq> []")
      case True
      with Inr Cons.prems(1) [of m url] show ?thesis by simp
    next
      case False
      with Inr Cons.prems(2) have "run_methods ms E soup = Inr (Some url)"
        by (auto split: option.splits if_splits)
      then show ?thesis
      proof (rule Cons.IH [rotated])
        fix f u
        assume "f \<in> set ms" "f E soup = Inr (Some u)"
        then show "P u" using Cons.prems(1) [of f u] by simp
      qed
    qed
  qed
qed

lemma extract_try_valid: "extract_try E url = Inr (Some image_url) \<Longrightarrow> is_valid_image_url image_url"
  by (auto simp: extract_try_def split: sum.splits
      intro: run_methods_valid [where P = is_valid_image_url] methods_valid)

lemma extract_image_url_valid:
  "extract_image_url E url = Inr (Some image_url) \<Longrightarrow> is_valid_image_url image_url"
  by (auto simp: extract_image_url_def split: sum.splits dest: extract_try_valid)

lemma extract_image_url_returns: "\<exists>r. extract_image_url E url = Inr r"
  by (simp add: extract_image_url_def split: sum.splits)

text \<open>The loop over the methods: the first address wins, and an exception ends the loop.\<close>

lemma run_methods_none:
  "\<forall>method \<in> set ms. method E soup = Inr None \<Longrightarrow> run_methods ms E soup = Inr None"
  by (induction ms) simp_all

lemma run_methods_first:
  assumes "\<forall>method \<in> set before. method E soup = Inr None"
    and "method E soup = Inr (Some url)" and "url \<noteq> []"
  shows "run_methods (before @ method # rest) E soup = Inr (Some url)"
  using assms by (induction before) simp_all

lemma run_methods_raise:
  assumes "\<forall>method \<in> set before. method E soup = Inr None"
    and "method E soup = Inl e"
  shows "run_methods (before @ method # rest) E soup = Inl e"
  using assms by (induction before) simp_all

lemma method_1_wins:
  assumes "extract_method_1 E soup = Inr (Some url)"
  shows "run_methods methods E soup = Inr (Some url)"
proof -
  from assms have "url \<noteq> []" by (blast dest: method_1_valid is_valid_nonempty)
  with assms show ?thesis by (simp add: methods_def)
qed

lemma method_2_returns: "\<exists>r. extract_method_2 E soup = Inr r"
  by (simp add: extract_method_2_def)

lemma method_6_returns: "\<exists>r. extract_method_6 E soup = Inr r"
  by (simp add: extract_method_6_def)

lemma method_7_returns: "\<exists>r. extract_method_7 E soup = Inr r"
  by (simp add: extract_method_7_def)

text \<open>Method 4 is the only one an exception can leave: its handler names one class.\<close>

lemma method_4_raises:
  assumes "extract_method_4 E soup = Inl e"
  shows "e \<noteq> JSONDecodeError \<and>
         (\<exists>main_image src a.
            select_one soup ''#landingImage, #imgBlkFront, #main-image, #img-canvas img'' =
              Some main_image \<and>
            attrs main_image ''src'' = Some src \<and> \<not> is_valid_image_url src \<and>
            attrs main_image ''data-a-dynamic-image'' = Some a \<and>
            dynamic_image_keys E a = Inl e)"
  using assms
  by (auto simp: extract_method_4_def split: option.splits if_splits sum.splits)

text \<open>
  C1, on the example page with the list: methods 1 to 3 and 5 find nothing, the
  \<^verbatim>\<open>AttributeError\<close> of \<^verbatim>\<open>.keys()\<close> on the list leaves method 4, and the engine
  answers \<open>None\<close>, although method 6 yields an address that the validator accepts.
\<close>

theorem list_page_chain_aborted:
  "extract_method_1 list_page_env list_page = Inr None \<and>
   extract_method_2 list_page_env list_page = Inr None \<and>
   extract_method_3 list_page_env list_page = Inr None \<and>
   extract_method_4 list_page_env list_page = Inl AttributeError \<and>
   extract_method_5 list_page_env list_page = Inr None \<and>
   extract_method_6 list_page_env list_page =
     Inr (Some ''https://m.media-amazon.com/images/I/abc.jpg'') \<and>
   is_valid_image_url ''https://m.media-amazon.com/images/I/abc.jpg'' \<and>
   extract_image_url list_page_env ''https://www.amazon.com/dp/0000000000'' = Inr None"
proof (intro conjI)
  show "extract_method_1 list_page_env list_page = Inr None" by code_simp
  show "extract_method_2 list_page_env list_page = Inr None" by code_simp
  show "extract_method_3 list_page_env list_page = Inr None" by code_simp
  show "extract_method_4 list_page_env list_page = Inl AttributeError" by code_simp
  show "extract_method_5 list_page_env list_page = Inr None" by code_simp
  show "extract_method_6 list_page_env list_page =
     Inr (Some ''https://m.media-amazon.com/images/I/abc.jpg'')" by code_simp
  show "is_valid_image_url ''https://m.media-amazon.com/images/I/abc.jpg''" by code_simp
  show "extract_image_url list_page_env ''https://www.amazon.com/dp/0000000000'' = Inr None"
    by code_simp
qed

text \<open>
  C3: \<^verbatim>\<open>extract_image_url\<close> always returns. An exception of the fetch, of both parsers
  or of a method is turned into \<open>None\<close>, and so is a page on which no method finds an
  address.
\<close>

theorem extract_image_url_never_raises:
  "(\<exists>result. extract_image_url E url = Inr result) \<and>
   (fetch_html E url = Inl e \<longrightarrow> extract_image_url E url = Inr None) \<and>
   (fetch_html E url = Inr html \<and> parse_lxml E html = Inl e \<and> parse_html_parser E html = Inl e'
      \<longrightarrow> extract_image_url E url = Inr None) \<and>
   (fetch_and_parse E url = Inr soup \<and> run_methods methods E soup = Inl e
      \<longrightarrow> extract_image_url E url = Inr None) \<and>
   (fetch_and_parse E url = Inr soup \<and> (\<forall>method \<in> set methods. method E soup = Inr None)
      \<longrightarrow> extract_image_url E url = Inr None)"
proof (intro conjI impI)
  show "\<exists>result. extract_image_url E url = Inr result"
    by (simp add: extract_image_url_def split: sum.splits)
next
  assume "fetch_html E url = Inl e"
  then show "extract_image_url E url = Inr None"
    by (simp add: extract_image_url_def extract_try_def fetch_and_parse_def)
next
  assume "fetch_html E url = Inr html \<and> parse_lxml E html = Inl e \<and>
    parse_html_parser E html = Inl e'"
  then show "extract_image_url E url = Inr None"
    by (simp add: extract_image_url_def extract_try_def fetch_and_parse_def)
next
  assume "fetch_and_parse E url = Inr soup \<and> run_methods methods E soup = Inl e"
  then show "extract_image_url E url = Inr None"
    by (simp add: extract_image_url_def extract_try_def)
next
  assume a: "fetch_and_parse E url = Inr soup \<and>
    (\<forall>method \<in> set methods. method E soup = Inr None)"
  then have "run_methods methods E soup = Inr None" by (simp add: run_methods_none)
  with a show "extract_image_url E url = Inr None"
    by (simp add: extract_image_url_def extract_try_def)
qed

text \<open>The network that is down, the page with the list and the page without images.\<close>

theorem extract_image_url_never_raises_witness:
  "fetch_html network_down_env ''https://www.amazon.com/dp/0000000000'' =
     Inl (OtherException ''ConnectionError'') \<and>
   extract_image_url network_down_env ''https://www.amazon.com/dp/0000000000'' = Inr None \<and>
   fetch_and_parse list_page_env ''https://www.amazon.com/dp/0000000000'' = Inr list_page \<and>
   run_methods methods list_page_env list_page = Inl AttributeError \<and>
   extract_image_url list_page_env ''https://www.amazon.com/dp/0000000000'' = Inr None \<and>
   fetch_and_parse empty_page_env ''https://www.amazon.com/dp/0000000000'' = Inr empty_page \<and>
   list_all (\<lambda>method. method empty_page_env empty_page = Inr None) methods \<and>
   extract_image_url empty_page_env ''https://www.amazon.com/dp/0000000000'' = Inr None"
proof -
  let ?u = "''https://www.amazon.com/dp/0000000000''"
  have d: "fetch_html network_down_env ?u = Inl (OtherException ''ConnectionError'')"
    by (simp add: network_down_env_def)
  from extract_image_url_never_raises [of network_down_env ?u "OtherException ''ConnectionError''"] d
  have 1: "extract_image_url network_down_env ?u = Inr None" by blast
  have l: "fetch_and_parse list_page_env ?u = Inr list_page"
    by (simp add: fetch_and_parse_def list_page_env_def)
  have r: "run_methods methods list_page_env list_page = Inl AttributeError" by code_simp
  from extract_image_url_never_raises [of list_page_env ?u AttributeError _ _ list_page] l r
  have 2: "extract_image_url list_page_env ?u = Inr None" by blast
  have p: "fetch_and_parse empty_page_env ?u = Inr empty_page"
    by (simp add: fetch_and_parse_def empty_page_env_def)
  have n: "list_all (\<lambda>method. method empty_page_env empty_page = Inr None) methods"
    by code_simp
  then have "\<forall>method \<in> set methods. method empty_page_env empty_page = Inr None"
    by (simp add: list_all_iff)
  with extract_image_url_never_raises [of empty_page_env ?u _ _ _ empty_page] p
  have 3: "extract_image_url empty_page_env ?u = Inr None" by blast
  from d 1 l r 2 p n 3 show ?thesis by (intro conjI)
qed

section \<open>Properties of the cache\<close>

lemma cache_key_inject: "cache_key c u = cache_key c u' \<longleftrightarrow> u = u'"
  by (simp add: cache_key_def)

lemma file_set_result:
  assumes "\<not> use_redis c" and "\<forall>e. file_db w \<noteq> FileCorrupt e"
  shows "cache_set c w u v =
           Inr (w\<lparr>file_db := FileMap ((case file_db w of FileMap m \<Rightarrow> m | _ \<Rightarrow> Map.empty)
                                        (cache_key c u \<mapsto> v))\<rparr>)"
  using assms by (cases "file_db w") (simp_all add: cache_set_def)

lemma file_get_result:
  assumes "\<not> use_redis c" and "file_db w = FileMap m"
  shows "cache_get c w u = Inr (m (cache_key c u))"
  using assms by (simp add: cache_get_def)

lemma redis_set_result:
  assumes "use_redis c" and "answers (redis w)" and "0 < timeout c"
  shows "cache_set c w u v =
           Inr (w\<lparr>redis := (redis w)\<lparr>entries := (entries (redis w))
                    (cache_key c u \<mapsto> (v, clock (redis w) + nat (timeout c)))\<rparr>\<rparr>)"
  using assms by (simp add: cache_set_def redis_setex_def)

text \<open>
  C6: \<^verbatim>\<open>set(u, v)\<close> immediately followed by \<^verbatim>\<open>get(u)\<close> returns \<open>v\<close>, with both stores,
  and both calls use the key \<^verbatim>\<open>prefix:u\<close>. The store has to be in working order: the
  redis server answers and the time-to-live is positive, or the cache file is absent
  or holds a dict. From redis an empty value would read as a miss; an address that
  passed the validator is never empty.
\<close>

theorem cache_round_trip:
  assumes "use_redis c \<longrightarrow> answers (redis w) \<and> 0 < timeout c \<and> v \<noteq> []"
    and "\<not> use_redis c \<longrightarrow> (\<forall>e. file_db w \<noteq> FileCorrupt e)"
  shows "set_then_get c w u v = Inr (Some v) \<and>
         cache_key c u = key_prefix c @ '':'' @ u \<and>
         (if use_redis c
          then cache_set c w u v =
                 Inr (w\<lparr>redis := (redis w)\<lparr>entries := (entries (redis w))
                          (cache_key c u \<mapsto> (v, clock (redis w) + nat (timeout c)))\<rparr>\<rparr>)
          else cache_set c w u v =
                 Inr (w\<lparr>file_db := FileMap ((case file_db w of FileMap m \<Rightarrow> m | _ \<Rightarrow> Map.empty)
                                              (cache_key c u \<mapsto> v))\<rparr>))"
proof (cases "use_redis c")
  case True
  with assms(1) have a: "answers (redis w)" "0 < timeout c" "v \<noteq> []" by simp_all
  note s = redis_set_result [OF True a(1,2), of u v]
  from True a have "set_then_get c w u v = Inr (Some v)"
    by (simp add: set_then_get_def s cache_get_def redis_get_def)
  with True s show ?thesis by (simp add: cache_key_def)
next
  case False
  with assms(2) have a: "\<forall>e. file_db w \<noteq> FileCorrupt e" by simp
  note s = file_set_result [OF False a, of u v]
  from False have "set_then_get c w u v = Inr (Some v)"
    by (simp add: set_then_get_def s cache_get_def)
  with False s show ?thesis by (simp add: cache_key_def)
qed

text \<open>One address stored and read back, through redis and through the file.\<close>

theorem cache_round_trip_witness:
  "set_then_get (BookImageCache True app_config redis_up) fresh_world
     ''https://www.amazon.com/dp/0000000000'' ''https://m.media-amazon.com/images/I/abc.jpg'' =
     Inr (Some ''https://m.media-amazon.com/images/I/abc.jpg'') \<and>
   use_redis (BookImageCache True app_config redis_up) \<and>
   set_then_get (BookImageCache False app_config redis_up) fresh_world
     ''https://www.amazon.com/dp/0000000000'' ''https://m.media-amazon.com/images/I/abc.jpg'' =
     Inr (Some ''https://m.media-amazon.com/images/I/abc.jpg'') \<and>
   \<not> use_redis (BookImageCache False app_config redis_up)"
proof -
  let ?r = "BookImageCache True app_config redis_up"
  let ?f = "BookImageCache False app_config redis_up"
  let ?u = "''https://www.amazon.com/dp/0000000000''"
  let ?v = "''https://m.media-amazon.com/images/I/abc.jpg''"
  have r: "use_redis ?r" by code_simp
  have f: "\<not> use_redis ?f" by code_simp
  have t: "0 < timeout ?r" by code_simp
  have a: "answers (redis fresh_world)" by (simp add: fresh_world_def redis_up_def)
  have m: "\<forall>e. file_db fresh_world \<noteq> FileCorrupt e" by (simp add: fresh_world_def)
  from cache_round_trip [of ?r fresh_world ?v ?u] r t a
  have 1: "set_then_get ?r fresh_world ?u ?v = Inr (Some ?v)" by simp
  from cache_round_trip [of ?f fresh_world ?v ?u] f m
  have 2: "set_then_get ?f fresh_world ?u ?v = Inr (Some ?v)" by simp
  from 1 r 2 f show ?thesis by (intro conjI)
qed

text \<open>
  C8: when the probe of the server fails, the constructor returns a cache that reports
  the file store, without raising; \<^verbatim>\<open>set\<close> followed by \<^verbatim>\<open>get\<close> still returns the value,
  and \<^verbatim>\<open>set\<close> leaves the redis server alone.
\<close>

theorem fallback_to_file:
  assumes "redis_ping srv = Inl e"
  shows "use_redis (BookImageCache redis_module cfg srv) = False \<and>
         ((\<forall>e'. file_db w \<noteq> FileCorrupt e') \<longrightarrow>
            set_then_get (BookImageCache redis_module cfg srv) w u v = Inr (Some v) \<and>
            (\<exists>w'. cache_set (BookImageCache redis_module cfg srv) w u v = Inr w' \<and>
                  redis w' = redis w))"
proof -
  let ?c = "BookImageCache redis_module cfg srv"
  from assms have f: "\<not> use_redis ?c"
    by (auto simp: BookImageCache_def split: option.splits sum.splits)
  {
    assume a: "\<forall>e'. file_db w \<noteq> FileCorrupt e'"
    note s = file_set_result [OF f a, of u v]
    from f have "set_then_get ?c w u v = Inr (Some v)"
      by (simp add: set_then_get_def s cache_get_def)
    moreover from s have "\<exists>w'. cache_set ?c w u v = Inr w' \<and> redis w' = redis w" by simp
    ultimately have "set_then_get ?c w u v = Inr (Some v) \<and>
      (\<exists>w'. cache_set ?c w u v = Inr w' \<and> redis w' = redis w)" by simp
  }
  with f show ?thesis by simp
qed

text \<open>The server that does not answer, with the default address configured.\<close>

theorem fallback_to_file_witness:
  "redis_ping redis_down = Inl (OtherException ''ConnectionError'') \<and>
   use_redis (BookImageCache True app_config redis_down) = False \<and>
   set_then_get (BookImageCache True app_config redis_down) offline_world
     ''https://www.amazon.com/dp/0000000000'' ''https://m.media-amazon.com/images/I/abc.jpg'' =
     Inr (Some ''https://m.media-amazon.com/images/I/abc.jpg'')"
proof -
  have p: "redis_ping redis_down = Inl (OtherException ''ConnectionError'')"
    by (simp add: redis_ping_def redis_down_def)
  have m: "\<forall>e. file_db offline_world \<noteq> FileCorrupt e" by (simp add: offline_world_def)
  from fallback_to_file [OF p, of True app_config offline_world
      "''https://www.amazon.com/dp/0000000000''" "''https://m.media-amazon.com/images/I/abc.jpg''"] m p
  show ?thesis by blast
qed

text \<open>
  C9 as stated fails: with a cache file that does not unpickle, \<^verbatim>\<open>get\<close> and \<^verbatim>\<open>set\<close>
  both raise the exception of \<^verbatim>\<open>pickle.load\<close>.
\<close>

theorem corrupt_file_raises:
  "cache_get (BookImageCache True app_config redis_down) corrupt_world
     ''https://www.amazon.com/dp/0000000000'' = Inl (OtherException ''UnpicklingError'') \<and>
   cache_set (BookImageCache True app_config redis_down) corrupt_world
     ''https://www.amazon.com/dp/0000000000'' ''https://m.media-amazon.com/images/I/abc.jpg'' =
     Inl (OtherException ''UnpicklingError'')"
  by (simp add: cache_get_def cache_set_def BookImageCache_def app_config_def redis_ping_def
      redis_down_def corrupt_world_def)

text \<open>
  C9, amended: with the file store, a cache file that cannot be loaded makes \<^verbatim>\<open>get\<close>
  and \<^verbatim>\<open>set\<close> raise the exception of the load, and the request handler answers with
  a server error and leaves the file as it is. Only a missing file counts as an empty
  cache: \<^verbatim>\<open>get\<close> is a miss and \<^verbatim>\<open>set\<close> writes a dict with its one entry.
\<close>

theorem file_store_faults:
  assumes "\<not> use_redis c"
  shows "(file_db w = FileCorrupt e \<longrightarrow>
            cache_get c w u = Inl e \<and> cache_set c w u v = Inl e \<and>
            (str_in ''amazon'' (lower u) \<longrightarrow> get_book_image E c w (Some u) = (ServerError e, w))) \<and>
         (file_db w = FileMissing \<longrightarrow>
            cache_get c w u = Inr None \<and>
            cache_set c w u v = Inr (w\<lparr>file_db := FileMap [cache_key c u \<mapsto> v]\<rparr>))"
proof (intro conjI impI)
  assume "file_db w = FileCorrupt e"
  with assms show "cache_get c w u = Inl e" by (simp add: cache_get_def)
next
  assume "file_db w = FileCorrupt e"
  with assms show "cache_set c w u v = Inl e" by (simp add: cache_set_def)
next
  assume f: "file_db w = FileCorrupt e" and a: "str_in ''amazon'' (lower u)"
  from a have "u \<noteq> []" by (auto simp: lower_def)
  moreover from assms f have "cache_get c w u = Inl e" by (simp add: cache_get_def)
  ultimately show "get_book_image E c w (Some u) = (ServerError e, w)"
    using a by (simp add: get_book_image_def)
next
  assume "file_db w = FileMissing"
  with assms show "cache_get c w u = Inr None" by (simp add: cache_get_def)
next
  assume "file_db w = FileMissing"
  with assms show "cache_set c w u v = Inr (w\<lparr>file_db := FileMap [cache_key c u \<mapsto> v]\<rparr>)"
    by (simp add: cache_set_def)
qed

text \<open>The world with the broken file and the world without a file.\<close>

theorem file_store_faults_witness:
  "file_db corrupt_world = FileCorrupt (OtherException ''UnpicklingError'') \<and>
   cache_get (BookImageCache True app_config redis_down) corrupt_world
     ''https://www.amazon.com/dp/0000000000'' = Inl (OtherException ''UnpicklingError'') \<and>
   get_book_image empty_page_env (BookImageCache True app_config redis_down) corrupt_world
     (Some ''https://www.amazon.com/dp/0000000000'') =
     (ServerError (OtherException ''UnpicklingError''), corrupt_world) \<and>
   file_db offline_world = FileMissing \<and>
   cache_get (BookImageCache True app_config redis_down) offline_world
     ''https://www.amazon.com/dp/0000000000'' = Inr None"
proof -
  let ?c = "BookImageCache True app_config redis_down"
  let ?u = "''https://www.amazon.com/dp/0000000000''"
  have f: "\<not> use_redis ?c" by code_simp
  have c: "file_db corrupt_world = FileCorrupt (OtherException ''UnpicklingError'')"
    by (simp add: corrupt_world_def)
  have a: "str_in ''amazon'' (lower ?u)" by code_simp
  have m: "file_db offline_world = FileMissing" by (simp add: offline_world_def)
  note t1 = file_store_faults [OF f, of corrupt_world "OtherException ''UnpicklingError''" ?u
      "[]" empty_page_env]
  note t2 = file_store_faults [OF f, of offline_world "OtherException ''UnpicklingError''" ?u
      "[]" empty_page_env]
  from t1 c a have 1: "cache_get ?c corrupt_world ?u = Inl (OtherException ''UnpicklingError'')"
    and 2: "get_book_image empty_page_env ?c corrupt_world (Some ?u) =
      (ServerError (OtherException ''UnpicklingError''), corrupt_world)" by blast+
  from t2 m have 3: "cache_get ?c offline_world ?u = Inr None" by blast
  from c 1 2 m 3 show ?thesis by (intro conjI)
qed

text \<open>
  C10: with the file store, \<^verbatim>\<open>set(u, v)\<close> leaves the value of any other address \<open>u'\<close>
  as it was: the dict written back is the dict loaded, changed at the key
  \<^verbatim>\<open>prefix:u\<close> only.
\<close>

theorem file_set_frame:
  assumes "\<not> use_redis c" and "u \<noteq> u'" and "cache_set c w u v = Inr w'"
  shows "cache_get c w' u' = cache_get c w u' \<and>
         redis w' = redis w \<and>
         (\<exists>m. file_db w' = FileMap m \<and> m (cache_key c u) = Some v \<and>
              (\<forall>key. key \<noteq> cache_key c u \<longrightarrow>
                 m key = (case file_db w of FileMap m0 \<Rightarrow> m0 key | _ \<Rightarrow> None)))"
proof -
  from assms(2) have k: "cache_key c u' \<noteq> cache_key c u" by (simp add: cache_key_inject)
  show ?thesis
  proof (cases "file_db w")
    case FileMissing
    with assms(1,3) have "w' = w\<lparr>file_db := FileMap [cache_key c u \<mapsto> v]\<rparr>"
      by (simp add: cache_set_def)
    with assms(1) FileMissing k show ?thesis by (simp add: cache_get_def)
  next
    case (FileCorrupt e)
    with assms(1,3) show ?thesis by (simp add: cache_set_def)
  next
    case (FileMap m0)
    with assms(1,3) have "w' = w\<lparr>file_db := FileMap (m0(cache_key c u \<mapsto> v))\<rparr>"
      by (simp add: cache_set_def)
    with assms(1) FileMap k show ?thesis by (simp add: cache_get_def)
  qed
qed

text \<open>An entry that is in the file stays when another address is stored.\<close>

theorem file_set_frame_witness:
  "''https://www.amazon.com/dp/0000000000'' \<noteq> ''https://www.amazon.com/dp/1111111111'' \<and>
   cache_get (BookImageCache True app_config redis_down) stocked_world
     ''https://www.amazon.com/dp/1111111111'' =
     Inr (Some ''https://m.media-amazon.com/images/I/one.jpg'') \<and>
   (case cache_set (BookImageCache True app_config redis_down) stocked_world
           ''https://www.amazon.com/dp/0000000000'' ''https://m.media-amazon.com/images/I/abc.jpg'' of
      Inl e \<Rightarrow> Inl e
    | Inr w' \<Rightarrow> cache_get (BookImageCache True app_config redis_down) w'
                  ''https://www.amazon.com/dp/1111111111'') =
     Inr (Some ''https://m.media-amazon.com/images/I/one.jpg'')"
proof -
  let ?c = "BookImageCache True app_config redis_down"
  let ?u = "''https://www.amazon.com/dp/0000000000''"
  let ?u' = "''https://www.amazon.com/dp/1111111111''"
  let ?v = "''https://m.media-amazon.com/images/I/abc.jpg''"
  have f: "\<not> use_redis ?c" by code_simp
  have n: "?u \<noteq> ?u'" by simp
  have g: "cache_get ?c stocked_world ?u' = Inr (Some ''https://m.media-amazon.com/images/I/one.jpg'')"
    by code_simp
  have "\<forall>e. file_db stocked_world \<noteq> FileCorrupt e" by (simp add: stocked_world_def)
  from file_set_result [OF f this, of ?u ?v] obtain w' where s: "cache_set ?c stocked_world ?u ?v = Inr w'"
    by blast
  from file_set_frame [OF f n s] g
  have "cache_get ?c w' ?u' = Inr (Some ''https://m.media-amazon.com/images/I/one.jpg'')" by simp
  with s n g show ?thesis by simp
qed

lemma cache_set_stored_valid:
  assumes "stored_valid w" and "is_valid_image_url v" and "cache_set c w u v = Inr w'"
  shows "stored_valid w'"
proof (cases "use_redis c")
  case True
  with assms(3) obtain srv where s: "redis_setex (redis w) (cache_key c u) (timeout c) v = Inr srv"
    and w': "w' = w\<lparr>redis := srv\<rparr>"
    by (auto simp: cache_set_def split: sum.splits)
  from s have "entries srv = (entries (redis w))(cache_key c u \<mapsto> (v, clock (redis w) + nat (timeout c)))"
    by (auto simp: redis_setex_def split: if_splits)
  with assms(1,2) w' show ?thesis by (auto simp: stored_valid_def split: if_splits)
next
  case False
  show ?thesis
  proof (cases "file_db w")
    case FileMissing
    with False assms(3) have "w' = w\<lparr>file_db := FileMap [cache_key c u \<mapsto> v]\<rparr>"
      by (simp add: cache_set_def)
    with assms(1,2) show ?thesis by (auto simp: stored_valid_def split: if_splits)
  next
    case (FileCorrupt e)
    with False assms(3) show ?thesis by (simp add: cache_set_def)
  next
    case (FileMap m0)
    with False assms(3) have "w' = w\<lparr>file_db := FileMap (m0(cache_key c u \<mapsto> v))\<rparr>"
      by (simp add: cache_set_def)
    with assms(1,2) FileMap show ?thesis by (auto simp: stored_valid_def split: if_splits)
  qed
qed

lemma extract_and_store_cases:
  "snd (extract_and_store E c w u) = w \<or>
   (\<exists>v. extract_image_url E u = Inr (Some v) \<and> v \<noteq> [] \<and> is_valid_image_url v \<and>
        cache_set c w u v = Inr (snd (extract_and_store E c w u)))"
  by (auto simp: extract_and_store_def split: sum.splits option.splits
      dest: extract_image_url_valid)

lemma get_book_image_cases:
  "snd (get_book_image E c w url_param) = w \<or>
   (\<exists>u v. url_param = Some u \<and> extract_image_url E u = Inr (Some v) \<and> v \<noteq> [] \<and>
        is_valid_image_url v \<and>
        cache_set c w u v = Inr (snd (get_book_image E c w url_param)))"
proof (cases url_param)
  case None
  then show ?thesis by (simp add: get_book_image_def)
next
  case (Some u)
  have "snd (get_book_image E c w (Some u)) = w \<or>
        snd (get_book_image E c w (Some u)) = snd (extract_and_store E c w u)"
    by (simp add: get_book_image_def split: sum.splits option.splits)
  with extract_and_store_cases [of E c w u] Some show ?thesis by auto
qed

lemma get_book_image_stored_valid:
  assumes "stored_valid w"
  shows "stored_valid (snd (get_book_image E c w url_param))"
  using get_book_image_cases [of E c w url_param] assms
  by (auto dest: cache_set_stored_valid)

lemma tick_stored_valid:
  "stored_valid w \<Longrightarrow> stored_valid (w\<lparr>redis := (redis w)\<lparr>clock := t, answers := a\<rparr>\<rparr>)"
  by (simp add: stored_valid_def)

lemma no_entries_stored_valid: "no_entries w \<Longrightarrow> stored_valid w"
  by (simp add: no_entries_def stored_valid_def)

text \<open>
  C7: in every world the request handler can reach from an empty cache, each stored
  address passes the validator. The handler changes the world only by \<^verbatim>\<open>cache.set\<close>
  with a non-empty result of \<^verbatim>\<open>extract_image_url\<close>, and that result has passed the
  validator inside the method that returned it.
\<close>

theorem cached_urls_valid:
  "(reachable c w \<longrightarrow> stored_valid w) \<and>
   (snd (get_book_image E c w url_param) \<noteq> w \<longrightarrow>
      (\<exists>u v. url_param = Some u \<and> extract_image_url E u = Inr (Some v) \<and> v \<noteq> [] \<and>
         is_valid_image_url v \<and>
         cache_set c w u v = Inr (snd (get_book_image E c w url_param))))"
proof (intro conjI impI)
  assume "reachable c w"
  then show "stored_valid w"
  proof (induction rule: reachable.induct)
    case (start w)
    then show ?case by (rule no_entries_stored_valid)
  next
    case (request w E url_param w')
    from get_book_image_stored_valid [OF request.IH, of E c url_param] request.hyps(2)
    show ?case by simp
  next
    case (tick w t a)
    then show ?case by (simp add: tick_stored_valid)
  qed
next
  assume "snd (get_book_image E c w url_param) \<noteq> w"
  with get_book_image_cases [of E c w url_param]
  show "\<exists>u v. url_param = Some u \<and> extract_image_url E u = Inr (Some v) \<and> v \<noteq> [] \<and>
         is_valid_image_url v \<and>
         cache_set c w u v = Inr (snd (get_book_image E c w url_param))" by blast
qed

text \<open>After one request for the page with the front image, its address is in the cache.\<close>

theorem cached_urls_valid_witness:
  "reachable (BookImageCache True app_config redis_down)
     (snd (get_book_image front_page_env (BookImageCache True app_config redis_down) offline_world
        (Some ''https://www.amazon.com/dp/0000000000''))) \<and>
   stored_valid
     (snd (get_book_image front_page_env (BookImageCache True app_config redis_down) offline_world
        (Some ''https://www.amazon.com/dp/0000000000''))) \<and>
   cache_get (BookImageCache True app_config redis_down)
     (snd (get_book_image front_page_env (BookImageCache True app_config redis_down) offline_world
        (Some ''https://www.amazon.com/dp/0000000000'')))
     ''https://www.amazon.com/dp/0000000000'' =
     Inr (Some ''https://m.media-amazon.com/images/I/abc._SX300_SY400_.jpg'')"
proof -
  let ?c = "BookImageCache True app_config redis_down"
  let ?w = "snd (get_book_image front_page_env ?c offline_world
        (Some ''https://www.amazon.com/dp/0000000000''))"
  have "no_entries offline_world"
    by (simp add: no_entries_def offline_world_def redis_down_def)
  then have "reachable ?c offline_world" by (rule reachable.start)
  then have r: "reachable ?c ?w" by (rule reachable.request) (rule refl)
  with cached_urls_valid [of ?c ?w] have s: "stored_valid ?w" by blast
  have g: "cache_get ?c ?w ''https://www.amazon.com/dp/0000000000'' =
     Inr (Some ''https://m.media-amazon.com/images/I/abc._SX300_SY400_.jpg'')" by code_simp
  from r s g show ?thesis by (intro conjI)
qed

end
